theory Spec2Isabelle
  imports Main
begin

section \<open>The F1 pit-stop pipeline of \<^verbatim>\<open>f1.py\<close>\<close>

text \<open>
  The DAG has three tasks: \<^verbatim>\<open>extract_data\<close>, \<^verbatim>\<open>transform_data\<close> and
  \<^verbatim>\<open>load_data_into_database\<close>. Each is embedded as a HOL function. What a task prints
  is returned as a list of lines, what it raises is the left injection of a sum, and the
  calls it makes on the database client are recorded in a trace.
\<close>

subsection \<open>Values, records and output lines\<close>

text \<open>
  A decoded JSON value. Python's \<^verbatim>\<open>None\<close> is \<open>JNull\<close>. A JSON float is kept by its
  literal: no task computes with it.
\<close>

datatype jval =
    JNull
  | JBool bool
  | JInt int
  | JFloat string
  | JStr string
  | JArr "jval list"
  | JObj "(string \<times> jval) list"

text \<open>A Python \<^verbatim>\<open>dict\<close> with string keys: a raw record, a transformed row, a parameter set.\<close>

type_synonym pydict = "string \<rightharpoonup> jval"

text \<open>\<^verbatim>\<open>d.get(k)\<close>: the value stored under \<open>k\<close>, \<^verbatim>\<open>None\<close> when the key is absent.\<close>

definition py_get :: "pydict \<Rightarrow> string \<Rightarrow> jval" where
  "py_get d k = (case d k of None \<Rightarrow> JNull | Some v \<Rightarrow> v)"

text \<open>The lines the tasks print, one constructor for each \<^verbatim>\<open>print\<close> of the source.\<close>

datatype line =
    Extracted nat
  | Transformed nat
  | TableCreated
  | Inserted nat
  | ErrorLine string

subsection \<open>\<^verbatim>\<open>transform_data\<close>\<close>

text \<open>The dict literal appended for one raw record (lines 45 to 52).\<close>

definition transform_row :: "pydict \<Rightarrow> pydict" where
  "transform_row f1_data =
     [''date'' \<mapsto> py_get f1_data ''date'',
      ''session_key'' \<mapsto> py_get f1_data ''session_key'',
      ''meeting_key'' \<mapsto> py_get f1_data ''meeting_key'',
      ''driver_number'' \<mapsto> py_get f1_data ''driver_number'',
      ''pit_duration'' \<mapsto> py_get f1_data ''pit_duration'',
      ''lap_number'' \<mapsto> py_get f1_data ''lap_number'']"

text \<open>The \<^verbatim>\<open>for\<close> loop: each record appends one row to \<^verbatim>\<open>transformed_data\<close>.\<close>

fun transform_loop :: "pydict list \<Rightarrow> pydict list \<Rightarrow> pydict list" where
  "transform_loop [] transformed_data = transformed_data"
| "transform_loop (f1_data # rest) transformed_data =
     transform_loop rest (transformed_data @ [transform_row f1_data])"

definition transform_data :: "pydict list \<Rightarrow> pydict list \<times> line list" where
  "transform_data f1_data_list =
     (let transformed_data = transform_loop f1_data_list []
      in (transformed_data, [Transformed (length transformed_data)]))"

subsection \<open>\<^verbatim>\<open>transform_data\<close> on a store\<close>

text \<open>
  The same task with the objects it reads and writes made explicit, to tell what a call
  does to its argument. A store holds the list objects and the dict objects; an object
  is known by its address, the position of its cell. A list object holds the addresses
  of dict objects. A new object takes the next free address.
\<close>

type_synonym addr = nat

record store =
  list_cells :: "addr list list"
  dict_cells :: "pydict list"

text \<open>
  The \<^verbatim>\<open>for\<close> loop at position \<open>i\<close> of the list it iterates. Each round reads the list
  again, as Python's list iterator does, builds the new dict and appends its address to
  the list at \<open>transformed_data\<close>. The value \<open>None\<close> is for a loop that does not
  return, and for an address outside the store, which no state of the program has.
\<close>

partial_function (option) transform_iter :: "addr \<Rightarrow> nat \<Rightarrow> addr \<Rightarrow> store \<Rightarrow> store option" where
  "transform_iter f1_data_list i transformed_data s =
     (if f1_data_list < length (list_cells s) \<and> transformed_data < length (list_cells s) then
        if i < length (list_cells s ! f1_data_list) then
          if list_cells s ! f1_data_list ! i < length (dict_cells s) then
            transform_iter f1_data_list (i + 1) transformed_data
              (s\<lparr>dict_cells := dict_cells s @ [transform_row (dict_cells s ! (list_cells s ! f1_data_list ! i))],
                 list_cells := (list_cells s)[transformed_data :=
                            list_cells s ! transformed_data @ [length (dict_cells s)]]\<rparr>)
          else None
        else Some s
      else None)"

text \<open>
  The task: line 42 allocates the empty list, the loop fills it, line 54 prints its length,
  line 55 returns its address.
\<close>

definition transform_data_store :: "addr \<Rightarrow> store \<Rightarrow> (addr \<times> store \<times> line list) option" where
  "transform_data_store f1_data_list s =
     (if f1_data_list < length (list_cells s) then
        (case transform_iter f1_data_list 0 (length (list_cells s)) (s\<lparr>list_cells := list_cells s @ [[]]\<rparr>) of
           None \<Rightarrow> None
         | Some s' \<Rightarrow>
             Some (length (list_cells s), s', [Transformed (length (list_cells s' ! length (list_cells s)))]))
      else None)"

text \<open>The content of a list object: the dicts its items point to.\<close>

definition read_rows :: "store \<Rightarrow> addr \<Rightarrow> pydict list" where
  "read_rows s a = map (\<lambda>r. dict_cells s ! r) (list_cells s ! a)"

text \<open>An address of a list object whose items are addresses of dict objects.\<close>

definition valid_list :: "store \<Rightarrow> addr \<Rightarrow> bool" where
  "valid_list s a \<longleftrightarrow>
     a < length (list_cells s) \<and> (\<forall>r\<in>set (list_cells s ! a). r < length (dict_cells s))"

text \<open>
  The store a call on the list at \<open>a\<close> leaves, in closed form (it is proved below to be
  what the loop computes): the new rows after the old dicts, the new list after the old
  lists.
\<close>

definition transform_store :: "addr \<Rightarrow> store \<Rightarrow> store" where
  "transform_store a s =
     s\<lparr>dict_cells := dict_cells s @ map (\<lambda>r. transform_row (dict_cells s ! r)) (list_cells s ! a),
       list_cells := list_cells s @
         [[length (dict_cells s) ..< length (dict_cells s) + length (list_cells s ! a)]]\<rparr>"

subsection \<open>Exceptions\<close>

text \<open>
  The two exceptions the source raises itself, the \<^verbatim>\<open>TypeError\<close> of \<^verbatim>\<open>len\<close>, the
  exceptions raised inside the HTTP, JSON and database libraries that are subclasses of
  \<^verbatim>\<open>Exception\<close>, and the exceptions that derive from \<^verbatim>\<open>BaseException\<close> only
  (\<^verbatim>\<open>KeyboardInterrupt\<close>, \<^verbatim>\<open>SystemExit\<close>, Airflow's task timeout), which can be raised
  inside any call. Each carries its message.
\<close>

datatype exn =
    Exception string
  | RuntimeError string
  | TypeError string
  | LibraryError string
  | BaseOnly string

text \<open>\<^verbatim>\<open>str(e)\<close>.\<close>

fun str_exn :: "exn \<Rightarrow> string" where
  "str_exn (Exception m) = m"
| "str_exn (RuntimeError m) = m"
| "str_exn (TypeError m) = m"
| "str_exn (LibraryError m) = m"
| "str_exn (BaseOnly m) = m"

text \<open>\<^verbatim>\<open>isinstance(e, Exception)\<close>: what an \<^verbatim>\<open>except Exception\<close> clause catches.\<close>

fun is_exception :: "exn \<Rightarrow> bool" where
  "is_exception (BaseOnly m) = False"
| "is_exception e = True"

subsection \<open>Decimal text of an integer\<close>





subsection \<open>\<^verbatim>\<open>extract_data\<close>\<close>





subsection \<open>\<^verbatim>\<open>load_data_into_database\<close>\<close>

text \<open>
  The calls the task makes on the SQLAlchemy client, in the order of the source:
  \<^verbatim>\<open>create_engine\<close>, \<^verbatim>\<open>engine.connect()\<close>, \<^verbatim>\<open>conn.execute\<close> of the
  \<^verbatim>\<open>CREATE TABLE IF NOT EXISTS\<close> statement, \<^verbatim>\<open>conn.commit()\<close>, \<^verbatim>\<open>conn.execute\<close> of the
  \<^verbatim>\<open>INSERT\<close> with a parameter dict, the close of the connection when the \<^verbatim>\<open>with\<close>
  block is left, and \<^verbatim>\<open>engine.dispose()\<close>.
\<close>

datatype call =
    CreateEngine string
  | Connect
  | ExecuteDDL
  | Commit
  | ExecuteInsert pydict
  | Close
  | Dispose

text \<open>A call with its outcome: \<open>None\<close> when it returned, the exception when it raised.\<close>

type_synonym event = "call \<times> exn option"

text \<open>
  The client and the server behind it are not part of the repository. They are a
  parameter: a function that tells, from the calls made so far and their outcomes,
  whether the next call raises.
\<close>

type_synonym client = "event list \<Rightarrow> call \<Rightarrow> exn option"

text \<open>The state of a run: the calls made and the lines printed.\<close>

record run =
  trace :: "event list"
  out :: "line list"

definition start :: run where
  "start = \<lparr>trace = [], out = []\<rparr>"

text \<open>A call that may raise.\<close>

definition perform :: "client \<Rightarrow> call \<Rightarrow> run \<Rightarrow> exn option \<times> run" where
  "perform db c s = (let r = db (trace s) c in (r, s\<lparr>trace := trace s @ [(c, r)]\<rparr>))"

text \<open>Closing the connection and disposing of the engine: taken not to raise.\<close>

definition release :: "call \<Rightarrow> run \<Rightarrow> run" where
  "release c s = s\<lparr>trace := trace s @ [(c, None)]\<rparr>"

definition py_print :: "line \<Rightarrow> run \<Rightarrow> run" where
  "py_print l s = s\<lparr>out := out s @ [l]\<rparr>"

text \<open>The parameter dict of one insert (lines 107 to 114).\<close>

definition insert_params :: "pydict \<Rightarrow> pydict" where
  "insert_params data =
     [''date'' \<mapsto> py_get data ''date'',
      ''session_key'' \<mapsto> py_get data ''session_key'',
      ''meeting_key'' \<mapsto> py_get data ''meeting_key'',
      ''driver_number'' \<mapsto> py_get data ''driver_number'',
      ''pit_duration'' \<mapsto> py_get data ''pit_duration'',
      ''lap_number'' \<mapsto> py_get data ''lap_number'']"

text \<open>The insert loop (lines 101 to 116), from the current \<^verbatim>\<open>insert_count\<close>.\<close>

fun insert_loop :: "client \<Rightarrow> pydict list \<Rightarrow> nat \<Rightarrow> run \<Rightarrow> (exn + nat) \<times> run" where
  "insert_loop db [] insert_count s = (Inr insert_count, s)"
| "insert_loop db (data # rest) insert_count s =
     (case perform db (ExecuteInsert (insert_params data)) s of
        (Some e, s') \<Rightarrow> (Inl e, s')
      | (None, s') \<Rightarrow> insert_loop db rest (insert_count + 1) s')"

text \<open>The body of the \<^verbatim>\<open>with\<close> block (lines 83 to 119).\<close>

definition with_body :: "client \<Rightarrow> pydict list \<Rightarrow> run \<Rightarrow> (exn + unit) \<times> run" where
  "with_body db transformed_data_list s =
     (case perform db ExecuteDDL s of
        (Some e, s1) \<Rightarrow> (Inl e, s1)
      | (None, s1) \<Rightarrow>
          (case perform db Commit s1 of
             (Some e, s2) \<Rightarrow> (Inl e, s2)
           | (None, s2) \<Rightarrow>
               (case insert_loop db transformed_data_list 0 (py_print TableCreated s2) of
                  (Inl e, s3) \<Rightarrow> (Inl e, s3)
                | (Inr insert_count, s3) \<Rightarrow>
                    (case perform db Commit s3 of
                       (Some e, s4) \<Rightarrow> (Inl e, s4)
                     | (None, s4) \<Rightarrow> (Inr (), py_print (Inserted insert_count) s4)))))"

text \<open>
  The \<^verbatim>\<open>with engine.connect() as conn\<close> statement (line 81): when the connection is
  obtained the body runs and the connection is closed however the body ends.
\<close>

definition with_connection :: "client \<Rightarrow> pydict list \<Rightarrow> run \<Rightarrow> (exn + unit) \<times> run" where
  "with_connection db transformed_data_list s =
     (case perform db Connect s of
        (Some e, s1) \<Rightarrow> (Inl e, s1)
      | (None, s1) \<Rightarrow>
          (case with_body db transformed_data_list s1 of
             (r, s2) \<Rightarrow> (r, release Close s2)))"

text \<open>
  The \<^verbatim>\<open>try\<close> statement (lines 80 to 125). The clause \<^verbatim>\<open>except Exception as e\<close>
  catches the subclasses of \<^verbatim>\<open>Exception\<close>: it prints the message and raises the same
  exception again. Any other exception passes the clause by, unprinted. The
  \<^verbatim>\<open>finally\<close> clause disposes of the engine in every case.
\<close>

definition try_block :: "client \<Rightarrow> pydict list \<Rightarrow> run \<Rightarrow> (exn + unit) \<times> run" where
  "try_block db transformed_data_list s =
     (case with_connection db transformed_data_list s of
        (Inl e, s1) \<Rightarrow>
          if is_exception e
          then (Inl e, release Dispose (py_print (ErrorLine (str_exn e)) s1))
          else (Inl e, release Dispose s1)
      | (Inr u, s1) \<Rightarrow> (Inr u, release Dispose s1))"

text \<open>\<^verbatim>\<open>not DATABASE_URL\<close>, for the \<^verbatim>\<open>None\<close> or \<^verbatim>\<open>str\<close> that \<^verbatim>\<open>os.environ.get\<close> returns.\<close>

fun py_not :: "string option \<Rightarrow> bool" where
  "py_not None = True"
| "py_not (Some u) = (u = [])"

text \<open>
  The task, given the value of \<^verbatim>\<open>os.environ.get('DATABASE_URL')\<close>, the client, and the
  rows. It returns the outcome (\<^verbatim>\<open>None\<close> or the exception raised) and the run.
\<close>

definition load_data_into_database ::
    "string option \<Rightarrow> client \<Rightarrow> pydict list \<Rightarrow> (exn + unit) \<times> run" where
  "load_data_into_database DATABASE_URL db transformed_data_list =
     (if py_not DATABASE_URL then
        (Inl (RuntimeError
           ''DATABASE_URL not set in environment. Add it to a .env file or export it.''), start)
      else
        (case perform db (CreateEngine (the DATABASE_URL)) start of
           (Some e, s) \<Rightarrow> (Inl e, s)
         | (None, s) \<Rightarrow> try_block db transformed_data_list s))"

subsection \<open>The database behind the client\<close>

text \<open>
  What the trace of a run does to the database. The source passes \<^verbatim>\<open>DATABASE_URL\<close> to
  \<^verbatim>\<open>create_engine\<close> unchanged and sets no isolation level, so the URL decides how the
  connection commits. Which URLs ask for autocommit is the client's matter: it is the
  parameter \<open>autocommits\<close>.

  On a connection that is not in autocommit mode, statements run in a transaction that
  begins by itself, \<^verbatim>\<open>commit\<close> makes the effects of the transaction durable, and closing
  the connection rolls back what was not committed. On a connection in autocommit mode
  every statement that returns is durable at once. A call that raised changes nothing.
  The table is tracked by its existence and its rows.
\<close>

record database =
  autocommit :: bool
  table_exists :: bool
  rows :: "pydict list"
  table_pending :: bool
  rows_pending :: "pydict list"

fun apply_event :: "(string \<Rightarrow> bool) \<Rightarrow> database \<Rightarrow> event \<Rightarrow> database" where
  "apply_event autocommits d (CreateEngine u, None) = d\<lparr>autocommit := autocommits u\<rparr>"
| "apply_event autocommits d (Connect, None) = d\<lparr>table_pending := False, rows_pending := []\<rparr>"
| "apply_event autocommits d (ExecuteDDL, None) =
     (if table_exists d then d
      else if autocommit d then d\<lparr>table_exists := True\<rparr>
      else d\<lparr>table_pending := True\<rparr>)"
| "apply_event autocommits d (ExecuteInsert p, None) =
     (if autocommit d then d\<lparr>rows := rows d @ [p]\<rparr>
      else d\<lparr>rows_pending := rows_pending d @ [p]\<rparr>)"
| "apply_event autocommits d (Commit, None) =
     d\<lparr>table_exists := table_exists d \<or> table_pending d,
       rows := rows d @ rows_pending d,
       table_pending := False, rows_pending := []\<rparr>"
| "apply_event autocommits d (Close, None) = d\<lparr>table_pending := False, rows_pending := []\<rparr>"
| "apply_event autocommits d (c, r) = d"

definition database_after :: "(string \<Rightarrow> bool) \<Rightarrow> database \<Rightarrow> event list \<Rightarrow> database" where
  "database_after autocommits d evs = foldl (apply_event autocommits) d evs"

text \<open>Whether a connection is held, and whether an engine is live, after a trace.\<close>

fun holds :: "bool \<Rightarrow> event \<Rightarrow> bool" where
  "holds h (Connect, None) = True"
| "holds h (Close, None) = False"
| "holds h (c, r) = h"

definition connection_held :: "event list \<Rightarrow> bool" where
  "connection_held evs = foldl holds False evs"

fun lives :: "bool \<Rightarrow> event \<Rightarrow> bool" where
  "lives h (CreateEngine u, None) = True"
| "lives h (Dispose, None) = False"
| "lives h (c, r) = h"

definition engine_live :: "event list \<Rightarrow> bool" where
  "engine_live evs = foldl lives False evs"

subsection \<open>Reading a trace\<close>

text \<open>A call that returned, and the insert of one row that returned.\<close>

definition ok :: "call \<Rightarrow> event" where
  "ok c = (c, None)"

definition ok_insert :: "pydict \<Rightarrow> event" where
  "ok_insert d = (ExecuteInsert (insert_params d), None)"

text \<open>The lines the \<^verbatim>\<open>except\<close> clause prints for an exception raised in the \<^verbatim>\<open>try\<close> block.\<close>

definition logged :: "exn \<Rightarrow> line list" where
  "logged e = (if is_exception e then [ErrorLine (str_exn e)] else [])"

text \<open>The parameter dicts of the inserts attempted in a trace, in order.\<close>

fun inserts :: "event list \<Rightarrow> pydict list" where
  "inserts [] = []"
| "inserts ((ExecuteInsert p, r) # evs) = p # inserts evs"
| "inserts (ev # evs) = inserts evs"

text \<open>The calls of the table creation and of the inserts, with their commits.\<close>

fun statement_call :: "call \<Rightarrow> bool" where
  "statement_call ExecuteDDL = True"
| "statement_call Commit = True"
| "statement_call (ExecuteInsert p) = True"
| "statement_call c = False"

text \<open>
  A trace is the client's: each outcome in it is what the client answered to that call
  after the calls before it; the two releases return.
\<close>

definition from_client :: "client \<Rightarrow> event list \<Rightarrow> bool" where
  "from_client db evs \<longleftrightarrow>
     (\<forall>i<length evs.
        snd (evs ! i) = db (take i evs) (fst (evs ! i)) \<or>
        (fst (evs ! i) = Close \<or> fst (evs ! i) = Dispose) \<and> snd (evs ! i) = None)"

text \<open>The six column names.\<close>

definition six_keys :: "string set" where
  "six_keys = {''date'', ''session_key'', ''meeting_key'', ''driver_number'',
               ''pit_duration'', ''lap_number''}"

subsection \<open>Concrete inputs\<close>

text \<open>Clients, rows and a database on which the tasks are run below.\<close>

definition never_raises :: client where
  "never_raises h c = None"

definition raises_at :: "nat \<Rightarrow> exn \<Rightarrow> client" where
  "raises_at n e h c = (if length h = n then Some e else None)"

definition full_row :: pydict where
  "full_row = [''date'' \<mapsto> JStr ''2025-11-29T10:00:00'', ''session_key'' \<mapsto> JInt 9158,
     ''meeting_key'' \<mapsto> JInt 100, ''driver_number'' \<mapsto> JInt 44,
     ''pit_duration'' \<mapsto> JFloat ''2.3'', ''lap_number'' \<mapsto> JInt 12]"

definition sparse_row :: pydict where
  "sparse_row = [''driver_number'' \<mapsto> JInt 1, ''team'' \<mapsto> JStr ''x'']"

definition empty_database :: database where
  "empty_database =
     \<lparr>autocommit = False, table_exists = False, rows = [],
      table_pending = False, rows_pending = []\<rparr>"


definition autocommit_off :: "string \<Rightarrow> bool" where
  "autocommit_off u = False"


definition two_records :: store where
  "two_records = \<lparr>list_cells = [[0, 1]], dict_cells = [full_row, sparse_row]\<rparr>"

section \<open>Properties of \<^verbatim>\<open>transform_data\<close>\<close>

lemma transform_loop_eq:
  "transform_loop xs acc = acc @ map transform_row xs"
  by (induction xs arbitrary: acc) simp_all

lemma transform_data_rows:
  "fst (transform_data xs) = map transform_row xs"
  by (simp add: transform_data_def transform_loop_eq Let_def)

lemma dom_transform_row: "dom (transform_row d) = six_keys"
  by (auto simp: transform_row_def six_keys_def)

lemma transform_row_value:
  "k \<in> six_keys \<Longrightarrow> transform_row d k = Some (py_get d k)"
  by (auto simp: transform_row_def six_keys_def)

text \<open>
  Claim C1. For every list of raw records, \<^verbatim>\<open>transform_data\<close> returns a list of the same
  length; the row at each position has exactly the six keys, and under each of them the
  value of the raw record at that position, or null where the record has no such key.
  Keys of the raw record outside the six do not appear in the row.
\<close>

theorem transform_data_rowwise:
  "length (fst (transform_data xs)) = length xs \<and>
   (\<forall>i < length xs.
      dom (fst (transform_data xs) ! i) = six_keys \<and>
      (\<forall>k \<in> six_keys.
         (fst (transform_data xs) ! i) k =
           Some (case (xs ! i) k of None \<Rightarrow> JNull | Some v \<Rightarrow> v)))"
  by (simp add: transform_data_rows dom_transform_row transform_row_value py_get_def)

theorem transform_data_rowwise_witness:
  "length (fst (transform_data [[''date'' \<mapsto> JStr ''2025-11-29T10:00:00'', ''team'' \<mapsto> JStr ''x'']])) = 1 \<and>
   dom (fst (transform_data [[''date'' \<mapsto> JStr ''2025-11-29T10:00:00'', ''team'' \<mapsto> JStr ''x'']]) ! 0) = six_keys \<and>
   (fst (transform_data [[''date'' \<mapsto> JStr ''2025-11-29T10:00:00'', ''team'' \<mapsto> JStr ''x'']]) ! 0) ''date''
     = Some (JStr ''2025-11-29T10:00:00'') \<and>
   (fst (transform_data [[''date'' \<mapsto> JStr ''2025-11-29T10:00:00'', ''team'' \<mapsto> JStr ''x'']]) ! 0) ''lap_number''
     = Some JNull"
  using transform_data_rowwise
    [of "[[''date'' \<mapsto> JStr ''2025-11-29T10:00:00'', ''team'' \<mapsto> JStr ''x'']]"]
  by (simp add: six_keys_def)

subsection \<open>What a call does to the store\<close>

text \<open>The loop from position \<open>i\<close>, when the list it fills is not the list it iterates.\<close>

lemma transform_iter_run:
  assumes "fl < length (list_cells s)" "td < length (list_cells s)" "fl \<noteq> td"
    and "\<forall>r\<in>set (list_cells s ! fl). r < length (dict_cells s)"
    and "i \<le> length (list_cells s ! fl)"
  shows "transform_iter fl i td s =
     Some (s\<lparr>dict_cells := dict_cells s @ map (\<lambda>r. transform_row (dict_cells s ! r)) (drop i (list_cells s ! fl)),
             list_cells := (list_cells s)[td := list_cells s ! td @
                [length (dict_cells s) ..< length (dict_cells s) + (length (list_cells s ! fl) - i)]]\<rparr>)"
  using assms
proof (induction "length (list_cells s ! fl) - i" arbitrary: i s)
  case 0
  then have "i = length (list_cells s ! fl)" by simp
  with 0 show ?case
    by (subst transform_iter.simps) simp
next
  case (Suc n)
  let ?items = "list_cells s ! fl"
  let ?s' = "s\<lparr>dict_cells := dict_cells s @ [transform_row (dict_cells s ! (?items ! i))],
                 list_cells := (list_cells s)[td := list_cells s ! td @ [length (dict_cells s)]]\<rparr>"
  from Suc.hyps(2) have i: "i < length ?items" by simp
  with Suc.prems(4) have r: "?items ! i < length (dict_cells s)" by simp
  have items': "list_cells ?s' ! fl = ?items" using Suc.prems(3) by simp
  have step: "transform_iter fl i td s = transform_iter fl (i + 1) td ?s'"
    using Suc.prems(1,2) i r by (subst transform_iter.simps) simp
  have "n = length (list_cells ?s' ! fl) - (i + 1)" using Suc.hyps(2) items' by simp
  moreover have "fl < length (list_cells ?s')" "td < length (list_cells ?s')"
    using Suc.prems(1,2) by simp_all
  moreover have "\<forall>r\<in>set (list_cells ?s' ! fl). r < length (dict_cells ?s')"
    using Suc.prems(4) items' by (simp add: less_Suc_eq)
  moreover have "i + 1 \<le> length (list_cells ?s' ! fl)" using i items' by simp
  ultimately have ih: "transform_iter fl (i + 1) td ?s' =
     Some (?s'\<lparr>dict_cells := dict_cells ?s' @ map (\<lambda>r. transform_row (dict_cells ?s' ! r)) (drop (i + 1) (list_cells ?s' ! fl)),
             list_cells := (list_cells ?s')[td := list_cells ?s' ! td @
                [length (dict_cells ?s') ..< length (dict_cells ?s') + (length (list_cells ?s' ! fl) - (i + 1))]]\<rparr>)"
    using Suc.prems(3) by (intro Suc.hyps(1)) 
  have d: "dict_cells ?s' @ map (\<lambda>r. transform_row (dict_cells ?s' ! r)) (drop (i + 1) ?items)
         = dict_cells s @ map (\<lambda>r. transform_row (dict_cells s ! r)) (drop i ?items)"
  proof -
    have "map (\<lambda>r. transform_row (dict_cells ?s' ! r)) (drop (i + 1) ?items)
        = map (\<lambda>r. transform_row (dict_cells s ! r)) (drop (i + 1) ?items)"
    proof (rule map_cong[OF refl])
      fix x assume "x \<in> set (drop (i + 1) ?items)"
      then have "x \<in> set ?items" by (rule in_set_dropD)
      with Suc.prems(4) have "x < length (dict_cells s)" by simp
      then show "transform_row (dict_cells ?s' ! x) = transform_row (dict_cells s ! x)"
        by (simp add: nth_append)
    qed
    moreover have "drop i ?items = ?items ! i # drop (i + 1) ?items"
      using i by (simp add: Cons_nth_drop_Suc)
    ultimately show ?thesis by simp
  qed
  have l: "(list_cells ?s')[td := list_cells ?s' ! td @
                [length (dict_cells ?s') ..< length (dict_cells ?s') + (length ?items - (i + 1))]]
         = (list_cells s)[td := list_cells s ! td @
                [length (dict_cells s) ..< length (dict_cells s) + (length ?items - i)]]"
  proof -
    obtain m where m: "length ?items - i = Suc m" using i by (metis Suc_diff_Suc)
    then have m': "length ?items - (i + 1) = m" by simp
    have "[a ..< a + Suc m] = a # [Suc a ..< Suc a + m]" for a
      by (subst upt_rec) simp
    with m m' show ?thesis using Suc.prems(2) by simp
  qed
  note ih' = ih[unfolded items']
  have fin: "?s'\<lparr>dict_cells := A, list_cells := B\<rparr> = s\<lparr>dict_cells := A, list_cells := B\<rparr>" for A B
    by simp
  show ?case by (simp only: step ih' fin d l)
qed


lemma transform_data_store_run:
  assumes "valid_list s a"
  shows "transform_data_store a s =
    Some (length (list_cells s), transform_store a s, [Transformed (length (list_cells s ! a))])"
proof -
  let ?s1 = "s\<lparr>list_cells := list_cells s @ [[]]\<rparr>"
  let ?td = "length (list_cells s)"
  from assms have a: "a < length (list_cells s)"
    and r: "\<forall>r\<in>set (list_cells s ! a). r < length (dict_cells s)"
    by (simp_all add: valid_list_def)
  have "transform_iter a 0 ?td ?s1 =
     Some (?s1\<lparr>dict_cells := dict_cells ?s1 @ map (\<lambda>r. transform_row (dict_cells ?s1 ! r)) (drop 0 (list_cells ?s1 ! a)),
             list_cells := (list_cells ?s1)[?td := list_cells ?s1 ! ?td @
                [length (dict_cells ?s1) ..< length (dict_cells ?s1) + (length (list_cells ?s1 ! a) - 0)]]\<rparr>)"
    using a r by (intro transform_iter_run) (simp_all add: nth_append)
  also have "?s1\<lparr>dict_cells := dict_cells ?s1 @ map (\<lambda>r. transform_row (dict_cells ?s1 ! r)) (drop 0 (list_cells ?s1 ! a)),
             list_cells := (list_cells ?s1)[?td := list_cells ?s1 ! ?td @
                [length (dict_cells ?s1) ..< length (dict_cells ?s1) + (length (list_cells ?s1 ! a) - 0)]]\<rparr>
     = transform_store a s"
    using a by (simp add: transform_store_def nth_append)
  finally have "transform_iter a 0 ?td ?s1 = Some (transform_store a s)" .
  moreover have "length (list_cells (transform_store a s) ! ?td) = length (list_cells s ! a)"
    by (simp add: transform_store_def)
  ultimately show ?thesis using a by (simp add: transform_data_store_def)
qed

lemma map_nth_append_upt:
  "map (\<lambda>r. (xs @ ys) ! r) [length xs ..< length xs + length ys] = ys"
  by (rule nth_equalityI) (simp_all add: nth_append)

lemma read_rows_result:
  "read_rows (transform_store a s) (length (list_cells s)) = map transform_row (read_rows s a)"
  using map_nth_append_upt[of "dict_cells s" "map (\<lambda>r. transform_row (dict_cells s ! r)) (list_cells s ! a)"]
  by (simp add: read_rows_def transform_store_def)

lemma transform_store_frame:
  "take (length (list_cells s)) (list_cells (transform_store a s)) = list_cells s"
  "take (length (dict_cells s)) (dict_cells (transform_store a s)) = dict_cells s"
  by (simp_all add: transform_store_def)

lemma valid_list_kept:
  assumes "valid_list s b"
  shows "valid_list (transform_store a s) b"
    and "read_rows (transform_store a s) b = read_rows s b"
  using assms
  by (auto simp: valid_list_def transform_store_def read_rows_def nth_append)

lemma valid_list_result:
  "valid_list (transform_store a s) (length (list_cells s))"
  by (simp add: valid_list_def transform_store_def)

text \<open>
  Claim C8. Let the argument be a list of dicts in the store. A call returns the address of
  a new list whose content is what the function on values computes from the content of
  the argument, and prints the same line. A second call on the same argument, in the
  store the first call left, returns another new list with the same content. Every object
  that was in the store before a call is unchanged after it: the old cells are a prefix
  of the new ones, and the content of the argument is the same after both calls.
\<close>

theorem transform_data_store_pure:
  assumes "valid_list s f1_data_list"
  shows "\<exists>td s1 td' s2.
     transform_data_store f1_data_list s =
       Some (td, s1, snd (transform_data (read_rows s f1_data_list))) \<and>
     transform_data_store f1_data_list s1 =
       Some (td', s2, snd (transform_data (read_rows s f1_data_list))) \<and>
     read_rows s1 td = fst (transform_data (read_rows s f1_data_list)) \<and>
     read_rows s2 td' = read_rows s2 td \<and>
     read_rows s2 td = read_rows s1 td \<and>
     td' \<noteq> td \<and>
     take (length (list_cells s)) (list_cells s1) = list_cells s \<and>
     take (length (dict_cells s)) (dict_cells s1) = dict_cells s \<and>
     take (length (list_cells s1)) (list_cells s2) = list_cells s1 \<and>
     take (length (dict_cells s1)) (dict_cells s2) = dict_cells s1 \<and>
     read_rows s1 f1_data_list = read_rows s f1_data_list \<and>
     read_rows s2 f1_data_list = read_rows s f1_data_list"
proof -
  let ?a = f1_data_list
  let ?td = "length (list_cells s)"
  let ?s1 = "transform_store ?a s"
  let ?td' = "length (list_cells ?s1)"
  let ?s2 = "transform_store ?a ?s1"
  have n: "snd (transform_data (read_rows s ?a)) = [Transformed (length (list_cells s ! ?a))]"
    by (simp add: transform_data_def Let_def transform_loop_eq read_rows_def)
  note v1 = valid_list_kept[OF assms, of ?a]
  have items1: "length (list_cells ?s1 ! ?a) = length (list_cells s ! ?a)"
    using assms by (simp add: valid_list_def transform_store_def nth_append)
  have "transform_data_store ?a s = Some (?td, ?s1, snd (transform_data (read_rows s ?a)))"
    using transform_data_store_run[OF assms] n by simp
  moreover have "transform_data_store ?a ?s1 = Some (?td', ?s2, snd (transform_data (read_rows s ?a)))"
    using transform_data_store_run[OF v1(1)] n items1 by simp
  moreover have r1: "read_rows ?s1 ?td = fst (transform_data (read_rows s ?a))"
    by (simp add: read_rows_result transform_data_rows)
  moreover have r2: "read_rows ?s2 ?td = read_rows ?s1 ?td"
    using valid_list_kept(2)[OF valid_list_result, of ?a ?a s] .
  moreover have "read_rows ?s2 ?td' = read_rows ?s2 ?td"
    using r1 r2 v1(2) by (simp add: read_rows_result transform_data_rows)
  moreover have "?td' \<noteq> ?td" by (simp add: transform_store_def)
  moreover have "read_rows ?s2 ?a = read_rows s ?a"
    using valid_list_kept(2)[OF v1(1), of ?a] v1(2) by simp
  ultimately show ?thesis
    using transform_store_frame[of s ?a] transform_store_frame[of ?s1 ?a] v1(2)
    by blast
qed

lemma two_records_valid: "valid_list two_records 0"
  by (simp add: valid_list_def two_records_def)

lemma two_records_run:
  "transform_data_store 0 two_records =
     Some (1, \<lparr>list_cells = [[0, 1], [2, 3]],
               dict_cells = [full_row, sparse_row, transform_row full_row, transform_row sparse_row]\<rparr>,
           [Transformed 2])"
  by (simp add: transform_data_store_def two_records_def transform_iter.simps)

theorem transform_data_store_pure_witness:
  "valid_list two_records 0 \<and>
   read_rows two_records 0 = [full_row, sparse_row] \<and>
   (\<exists>s1 td' s2.
      transform_data_store 0 two_records = Some (1, s1, [Transformed 2]) \<and>
      transform_data_store 0 s1 = Some (td', s2, [Transformed 2]) \<and>
      read_rows s1 1 = [transform_row full_row, transform_row sparse_row] \<and>
      read_rows s2 td' = read_rows s2 1 \<and>
      read_rows s2 0 = [full_row, sparse_row])"
proof -
  have rows: "read_rows two_records 0 = [full_row, sparse_row]"
    by (simp add: read_rows_def two_records_def)
  from transform_data_store_pure[OF two_records_valid]
  obtain td s1 td' s2 where
    a: "transform_data_store 0 two_records = Some (td, s1, snd (transform_data (read_rows two_records 0)))"
    and b: "transform_data_store 0 s1 = Some (td', s2, snd (transform_data (read_rows two_records 0)))"
    and c: "read_rows s1 td = fst (transform_data (read_rows two_records 0))"
    and d: "read_rows s2 td' = read_rows s2 td"
    and e: "read_rows s2 0 = read_rows two_records 0"
    by blast
  from a two_records_run have td: "td = 1" by simp
  have t: "transform_data [full_row, sparse_row] =
             ([transform_row full_row, transform_row sparse_row], [Transformed 2])"
    by (simp add: transform_data_def)
  from a b c d e show ?thesis
    unfolding td rows t using two_records_valid by auto
qed

section \<open>Runs of \<^verbatim>\<open>load_data_into_database\<close>\<close>

text \<open>What the insert loop, the body of the \<^verbatim>\<open>with\<close> block and the whole task leave in the
  trace and in the output, by the call that raised, if one did.\<close>

lemma insert_loop_run:
  "insert_loop db ds n s = (r, s') \<Longrightarrow>
     out s' = out s \<and>
     (case r of
        Inr m \<Rightarrow> m = n + length ds \<and> trace s' = trace s @ map ok_insert ds
      | Inl e \<Rightarrow> \<exists>k<length ds.
          trace s' = trace s @ map ok_insert (take k ds)
                       @ [(ExecuteInsert (insert_params (ds ! k)), Some e)])"
proof (induction ds arbitrary: n s)
  case Nil
  then show ?case by auto
next
  case (Cons d ds)
  let ?c = "ExecuteInsert (insert_params d)"
  show ?case
  proof (cases "db (trace s) ?c")
    case None
    let ?s1 = "s\<lparr>trace := trace s @ [(?c, None)]\<rparr>"
    from Cons.prems None have "insert_loop db ds (n + 1) ?s1 = (r, s')"
      by (simp add: perform_def Let_def)
    from Cons.IH[OF this] show ?thesis
    proof (cases r)
      case (Inl e)
      with \<open>out s' = out ?s1 \<and> _\<close> obtain k where "k < length ds"
        "trace s' = trace ?s1 @ map ok_insert (take k ds) @ [(ExecuteInsert (insert_params (ds ! k)), Some e)]"
        by auto
      then have "Suc k < length (d # ds) \<and> trace s' = trace s @ map ok_insert (take (Suc k) (d # ds))
                       @ [(ExecuteInsert (insert_params ((d # ds) ! Suc k)), Some e)]"
        by (simp add: ok_insert_def)
      then have "\<exists>k<length (d # ds). trace s' = trace s @ map ok_insert (take k (d # ds))
                       @ [(ExecuteInsert (insert_params ((d # ds) ! k)), Some e)]"
        by blast
      with Inl \<open>out s' = out ?s1 \<and> _\<close> show ?thesis by simp
    next
      case (Inr m)
      with \<open>out s' = out ?s1 \<and> _\<close> show ?thesis by (simp add: ok_insert_def)
    qed
  next
    case (Some e)
    with Cons.prems have "r = Inl e" "s' = s\<lparr>trace := trace s @ [(?c, Some e)]\<rparr>"
      by (simp_all add: perform_def Let_def)
    then have "0 < length (d # ds) \<and> trace s' = trace s @ map ok_insert (take 0 (d # ds))
                       @ [(ExecuteInsert (insert_params ((d # ds) ! 0)), Some e)]"
      by simp
    then have "\<exists>k<length (d # ds). trace s' = trace s @ map ok_insert (take k (d # ds))
                       @ [(ExecuteInsert (insert_params ((d # ds) ! k)), Some e)]"
      by blast
    with \<open>r = Inl e\<close> \<open>s' = _\<close> show ?thesis by simp
  qed
qed


lemma with_body_run:
  assumes "with_body db ds s = (r, s')"
  shows
   "(\<exists>e. r = Inl e \<and> trace s' = trace s @ [(ExecuteDDL, Some e)] \<and> out s' = out s) \<or>
    (\<exists>e. r = Inl e \<and> trace s' = trace s @ [ok ExecuteDDL, (Commit, Some e)] \<and> out s' = out s) \<or>
    (\<exists>e k. r = Inl e \<and> k < length ds \<and>
        trace s' = trace s @ [ok ExecuteDDL, ok Commit] @ map ok_insert (take k ds)
                     @ [(ExecuteInsert (insert_params (ds ! k)), Some e)] \<and>
        out s' = out s @ [TableCreated]) \<or>
    (\<exists>e. r = Inl e \<and>
        trace s' = trace s @ [ok ExecuteDDL, ok Commit] @ map ok_insert ds @ [(Commit, Some e)] \<and>
        out s' = out s @ [TableCreated]) \<or>
    (r = Inr () \<and>
        trace s' = trace s @ [ok ExecuteDDL, ok Commit] @ map ok_insert ds @ [ok Commit] \<and>
        out s' = out s @ [TableCreated, Inserted (length ds)])"
proof (cases "db (trace s) ExecuteDDL")
  case (Some e)
  with assms show ?thesis by (auto simp: with_body_def perform_def Let_def)
next
  case ddl: None
  let ?s1 = "s\<lparr>trace := trace s @ [(ExecuteDDL, None)]\<rparr>"
  show ?thesis
  proof (cases "db (trace ?s1) Commit")
    case (Some e)
    with assms ddl show ?thesis by (auto simp: with_body_def perform_def Let_def ok_def)
  next
    case c1: None
    let ?s2 = "py_print TableCreated (?s1\<lparr>trace := trace ?s1 @ [(Commit, None)]\<rparr>)"
    obtain r3 s3 where il: "insert_loop db ds 0 ?s2 = (r3, s3)" by fastforce
    note run = insert_loop_run[OF il]
    show ?thesis
    proof (cases r3)
      case (Inl e)
      with assms ddl c1 il have "r = Inl e" "s' = s3"
        by (simp_all add: with_body_def perform_def Let_def)
      with run Inl show ?thesis by (auto simp: py_print_def ok_def)
    next
      case (Inr m)
      with run have m: "m = length ds" and t3: "trace s3 = trace ?s2 @ map ok_insert ds"
        and o3: "out s3 = out ?s2" by simp_all
      show ?thesis
      proof (cases "db (trace s3) Commit")
        case (Some e)
        with assms ddl c1 il Inr have "r = Inl e" "s' = s3\<lparr>trace := trace s3 @ [(Commit, Some e)]\<rparr>"
          by (simp_all add: with_body_def perform_def Let_def)
        with t3 o3 show ?thesis by (simp add: py_print_def ok_def)
      next
        case None
        with assms ddl c1 il Inr have "r = Inr ()"
          "s' = py_print (Inserted m) (s3\<lparr>trace := trace s3 @ [(Commit, None)]\<rparr>)"
          by (simp_all add: with_body_def perform_def Let_def)
        with t3 o3 m show ?thesis by (simp add: py_print_def ok_def)
      qed
    qed
  qed
qed


lemma with_connection_run:
  assumes "with_connection db ds s = (r, s')"
  shows
   "(\<exists>e. r = Inl e \<and> trace s' = trace s @ [(Connect, Some e)] \<and> out s' = out s) \<or>
    (\<exists>r0 s0. with_body db ds (s\<lparr>trace := trace s @ [ok Connect]\<rparr>) = (r0, s0) \<and> r = r0 \<and>
        trace s' = trace s0 @ [ok Close] \<and> out s' = out s0)"
proof (cases "db (trace s) Connect")
  case (Some e)
  with assms show ?thesis by (auto simp: with_connection_def perform_def Let_def)
next
  case None
  obtain r0 s0 where b: "with_body db ds (s\<lparr>trace := trace s @ [ok Connect]\<rparr>) = (r0, s0)"
    by fastforce
  with assms None have "r = r0" "s' = release Close s0"
    by (simp_all add: with_connection_def perform_def Let_def ok_def)
  with b show ?thesis by (simp add: release_def ok_def)
qed

lemma load_run [consumes 1, case_names config engine connect ddl commit_ddl insert commit_rows finished]:
  assumes "load_data_into_database url db ds = (r, s)"
  obtains
    "py_not url"
      "r = Inl (RuntimeError ''DATABASE_URL not set in environment. Add it to a .env file or export it.'')"
      "trace s = []" "out s = []"
  | u e where "url = Some u" "u \<noteq> []" "r = Inl e"
      "trace s = [(CreateEngine u, Some e)]" "out s = []"
  | u e where "url = Some u" "u \<noteq> []" "r = Inl e"
      "trace s = [ok (CreateEngine u), (Connect, Some e), ok Dispose]"
      "out s = logged e"
  | u e where "url = Some u" "u \<noteq> []" "r = Inl e"
      "trace s = [ok (CreateEngine u), ok Connect, (ExecuteDDL, Some e), ok Close, ok Dispose]"
      "out s = logged e"
  | u e where "url = Some u" "u \<noteq> []" "r = Inl e"
      "trace s = [ok (CreateEngine u), ok Connect, ok ExecuteDDL, (Commit, Some e),
                  ok Close, ok Dispose]"
      "out s = logged e"
  | u e k where "url = Some u" "u \<noteq> []" "r = Inl e" "k < length ds"
      "trace s = [ok (CreateEngine u), ok Connect, ok ExecuteDDL, ok Commit]
                  @ map ok_insert (take k ds)
                  @ [(ExecuteInsert (insert_params (ds ! k)), Some e), ok Close, ok Dispose]"
      "out s = TableCreated # logged e"
  | u e where "url = Some u" "u \<noteq> []" "r = Inl e"
      "trace s = [ok (CreateEngine u), ok Connect, ok ExecuteDDL, ok Commit]
                  @ map ok_insert ds @ [(Commit, Some e), ok Close, ok Dispose]"
      "out s = TableCreated # logged e"
  | u where "url = Some u" "u \<noteq> []" "r = Inr ()"
      "trace s = [ok (CreateEngine u), ok Connect, ok ExecuteDDL, ok Commit]
                  @ map ok_insert ds @ [ok Commit, ok Close, ok Dispose]"
      "out s = [TableCreated, Inserted (length ds)]"
proof (cases "py_not url")
  case True
  with assms have "r = Inl (RuntimeError ''DATABASE_URL not set in environment. Add it to a .env file or export it.'')"
    "trace s = []" "out s = []"
    by (auto simp: load_data_into_database_def start_def)
  with True that(1) show ?thesis by blast
next
  case False
  then obtain u where u: "url = Some u" "u \<noteq> []" by (cases url) auto
  show ?thesis
  proof (cases "db [] (CreateEngine u)")
    case (Some e)
    with assms u have "r = Inl e" "trace s = [(CreateEngine u, Some e)]" "out s = []"
      by (auto simp: load_data_into_database_def start_def perform_def Let_def)
    with u that(2) show ?thesis by blast
  next
    case None
    let ?s0 = "\<lparr>trace = [ok (CreateEngine u)], out = []\<rparr>"
    from assms u None have tb: "try_block db ds ?s0 = (r, s)"
      by (simp add: load_data_into_database_def start_def perform_def Let_def ok_def)
    obtain r1 s1 where wc: "with_connection db ds ?s0 = (r1, s1)" by fastforce
    from tb wc have r: "r = r1"
      and t: "trace s = trace s1 @ [ok Dispose]"
      and o: "out s = out s1 @ (case r1 of Inl e \<Rightarrow> logged e | Inr _ \<Rightarrow> [])"
      by (auto simp: try_block_def release_def py_print_def ok_def logged_def
          split: sum.splits if_splits)
    from with_connection_run[OF wc]
    show ?thesis
    proof (elim disjE exE conjE)
      fix e assume "r1 = Inl e" "trace s1 = trace ?s0 @ [(Connect, Some e)]" "out s1 = out ?s0"
      with r t o u that(3) show ?thesis by simp
    next
      fix r0 s0
      assume b: "with_body db ds (?s0\<lparr>trace := trace ?s0 @ [ok Connect]\<rparr>) = (r0, s0)"
        and r0: "r1 = r0" and t1: "trace s1 = trace s0 @ [ok Close]" and o1: "out s1 = out s0"
      from with_body_run[OF b] show ?thesis
      proof (elim disjE exE conjE)
        fix e assume "r0 = Inl e"
          "trace s0 = trace (?s0\<lparr>trace := trace ?s0 @ [ok Connect]\<rparr>) @ [(ExecuteDDL, Some e)]"
          "out s0 = out (?s0\<lparr>trace := trace ?s0 @ [ok Connect]\<rparr>)"
        with r t o u r0 t1 o1 that(4) show ?thesis by simp
      next
        fix e assume "r0 = Inl e"
          "trace s0 = trace (?s0\<lparr>trace := trace ?s0 @ [ok Connect]\<rparr>) @ [ok ExecuteDDL, (Commit, Some e)]"
          "out s0 = out (?s0\<lparr>trace := trace ?s0 @ [ok Connect]\<rparr>)"
        with r t o u r0 t1 o1 that(5) show ?thesis by simp
      next
        fix e k assume "r0 = Inl e" "k < length ds"
          "trace s0 = trace (?s0\<lparr>trace := trace ?s0 @ [ok Connect]\<rparr>) @ [ok ExecuteDDL, ok Commit]
             @ map ok_insert (take k ds) @ [(ExecuteInsert (insert_params (ds ! k)), Some e)]"
          "out s0 = out (?s0\<lparr>trace := trace ?s0 @ [ok Connect]\<rparr>) @ [TableCreated]"
        with r t o u r0 t1 o1 that(6)[of u e k] show ?thesis by simp
      next
        fix e assume "r0 = Inl e"
          "trace s0 = trace (?s0\<lparr>trace := trace ?s0 @ [ok Connect]\<rparr>) @ [ok ExecuteDDL, ok Commit]
             @ map ok_insert ds @ [(Commit, Some e)]"
          "out s0 = out (?s0\<lparr>trace := trace ?s0 @ [ok Connect]\<rparr>) @ [TableCreated]"
        with r t o u r0 t1 o1 that(7) show ?thesis by simp
      next
        assume "r0 = Inr ()"
          "trace s0 = trace (?s0\<lparr>trace := trace ?s0 @ [ok Connect]\<rparr>) @ [ok ExecuteDDL, ok Commit]
             @ map ok_insert ds @ [ok Commit]"
          "out s0 = out (?s0\<lparr>trace := trace ?s0 @ [ok Connect]\<rparr>) @ [TableCreated, Inserted (length ds)]"
        with r t o u r0 t1 o1 that(8) show ?thesis by simp
      qed
    qed
  qed
qed

text \<open>Every outcome in the trace of a run is the client's answer.\<close>

lemma from_client_Nil: "from_client db []"
  by (simp add: from_client_def)

lemma from_client_snoc:
  "from_client db evs \<Longrightarrow> from_client db (evs @ [(c, db evs c)])"
  by (auto simp: from_client_def nth_append less_Suc_eq)

lemma from_client_release:
  "from_client db evs \<Longrightarrow> c = Close \<or> c = Dispose \<Longrightarrow> from_client db (evs @ [(c, None)])"
  by (auto simp: from_client_def nth_append less_Suc_eq)

lemma from_client_raised:
  "from_client db evs \<Longrightarrow> (c, Some e) \<in> set evs \<Longrightarrow> \<exists>h. db h c = Some e"
  by (fastforce simp: from_client_def in_set_conv_nth)

lemma perform_from_client:
  "perform db c s = (r, s') \<Longrightarrow> from_client db (trace s) \<Longrightarrow> from_client db (trace s')"
  by (auto simp: perform_def Let_def from_client_snoc)

lemma insert_loop_from_client:
  "insert_loop db ds n s = (r, s') \<Longrightarrow> from_client db (trace s) \<Longrightarrow> from_client db (trace s')"
proof (induction ds arbitrary: n s)
  case Nil
  then show ?case by simp
next
  case (Cons d ds)
  obtain r1 s1 where p: "perform db (ExecuteInsert (insert_params d)) s = (r1, s1)"
    by fastforce
  from perform_from_client[OF p Cons.prems(2)] have f1: "from_client db (trace s1)" .
  show ?case
  proof (cases r1)
    case None
    with Cons.prems(1) p have "insert_loop db ds (n + 1) s1 = (r, s')" by simp
    from Cons.IH[OF this f1] show ?thesis .
  next
    case (Some e)
    with Cons.prems(1) p have "s' = s1" by simp
    with f1 show ?thesis by simp
  qed
qed

lemma with_body_from_client:
  assumes "with_body db ds s = (r, s')" and "from_client db (trace s)"
  shows "from_client db (trace s')"
proof -
  obtain r1 s1 where p1: "perform db ExecuteDDL s = (r1, s1)" by fastforce
  from perform_from_client[OF p1 assms(2)] have f1: "from_client db (trace s1)" .
  show ?thesis
  proof (cases r1)
    case (Some e)
    with assms(1) p1 have "s' = s1" by (simp add: with_body_def)
    with f1 show ?thesis by simp
  next
    case n1: None
    obtain r2 s2 where p2: "perform db Commit s1 = (r2, s2)" by fastforce
    from perform_from_client[OF p2 f1] have f2: "from_client db (trace s2)" .
    show ?thesis
    proof (cases r2)
      case (Some e)
      with assms(1) p1 n1 p2 have "s' = s2" by (simp add: with_body_def)
      with f2 show ?thesis by simp
    next
      case n2: None
      obtain r3 s3 where p3: "insert_loop db ds 0 (py_print TableCreated s2) = (r3, s3)"
        by fastforce
      from f2 have "from_client db (trace (py_print TableCreated s2))"
        by (simp add: py_print_def)
      from insert_loop_from_client[OF p3 this] have f3: "from_client db (trace s3)" .
      show ?thesis
      proof (cases r3)
        case (Inl e)
        with assms(1) p1 n1 p2 n2 p3 have "s' = s3" by (simp add: with_body_def)
        with f3 show ?thesis by simp
      next
        case (Inr m)
        obtain r4 s4 where p4: "perform db Commit s3 = (r4, s4)" by fastforce
        from perform_from_client[OF p4 f3] have f4: "from_client db (trace s4)" .
        from assms(1) p1 n1 p2 n2 p3 Inr p4 have "trace s' = trace s4"
          by (cases r4) (auto simp: with_body_def py_print_def)
        with f4 show ?thesis by simp
      qed
    qed
  qed
qed

lemma with_connection_from_client:
  assumes "with_connection db ds s = (r, s')" and "from_client db (trace s)"
  shows "from_client db (trace s')"
proof -
  obtain r1 s1 where p1: "perform db Connect s = (r1, s1)" by fastforce
  from perform_from_client[OF p1 assms(2)] have f1: "from_client db (trace s1)" .
  show ?thesis
  proof (cases r1)
    case (Some e)
    with assms(1) p1 have "s' = s1" by (simp add: with_connection_def)
    with f1 show ?thesis by simp
  next
    case None
    obtain r2 s2 where p2: "with_body db ds s1 = (r2, s2)" by fastforce
    from with_body_from_client[OF p2 f1] have f2: "from_client db (trace s2)" .
    from assms(1) p1 None p2 have "trace s' = trace s2 @ [(Close, None)]"
      by (auto simp: with_connection_def release_def)
    with f2 show ?thesis by (simp add: from_client_release)
  qed
qed

lemma try_block_from_client:
  assumes "try_block db ds s = (r, s')" and "from_client db (trace s)"
  shows "from_client db (trace s')"
proof -
  obtain r1 s1 where p1: "with_connection db ds s = (r1, s1)" by fastforce
  from with_connection_from_client[OF p1 assms(2)] have f1: "from_client db (trace s1)" .
  from assms(1) p1 have "trace s' = trace s1 @ [(Dispose, None)]"
    by (cases r1) (auto simp: try_block_def release_def py_print_def split: if_splits)
  with f1 show ?thesis by (simp add: from_client_release)
qed

lemma load_from_client:
  assumes "load_data_into_database url db ds = (r, s)"
  shows "from_client db (trace s)"
proof (cases "py_not url")
  case True
  with assms show ?thesis
    by (auto simp: load_data_into_database_def start_def from_client_Nil)
next
  case False
  obtain r1 s1 where p1: "perform db (CreateEngine (the url)) start = (r1, s1)" by fastforce
  have "from_client db (trace start)" by (simp add: start_def from_client_Nil)
  from perform_from_client[OF p1 this] have f1: "from_client db (trace s1)" .
  show ?thesis
  proof (cases r1)
    case (Some e)
    with assms False p1 have "s = s1" by (simp add: load_data_into_database_def)
    with f1 show ?thesis by simp
  next
    case None
    with assms False p1 have "try_block db ds s1 = (r, s)"
      by (simp add: load_data_into_database_def)
    from try_block_from_client[OF this f1] show ?thesis .
  qed
qed

text \<open>Successful inserts neither open nor close anything; they add pending rows.\<close>

lemma holds_inserts: "foldl holds h (map ok_insert ds) = h"
  by (induction ds arbitrary: h) (simp_all add: ok_insert_def)

lemma lives_inserts: "foldl lives h (map ok_insert ds) = h"
  by (induction ds arbitrary: h) (simp_all add: ok_insert_def)


lemma inserts_append: "inserts (xs @ ys) = inserts xs @ inserts ys"
  by (induction xs rule: inserts.induct) simp_all

lemma inserts_ok_insert: "inserts (map ok_insert ds) = map insert_params ds"
  by (induction ds) (simp_all add: ok_insert_def)

text \<open>What the task raises is the configuration error or what the client raised.\<close>

lemma load_raised:
  assumes "load_data_into_database url db ds = (Inl e, s)"
  shows "py_not url \<and>
           e = RuntimeError ''DATABASE_URL not set in environment. Add it to a .env file or export it.''
         \<or> (\<exists>h c. db h c = Some e)"
proof -
  from assms have "py_not url \<and>
           e = RuntimeError ''DATABASE_URL not set in environment. Add it to a .env file or export it.''
         \<or> (\<exists>c. (c, Some e) \<in> set (trace s))"
    by (cases rule: load_run) auto
  with from_client_raised[OF load_from_client[OF assms]] show ?thesis by blast
qed

lemma load_returns:
  assumes "load_data_into_database url db ds = (r, s)"
    and "\<forall>h c. db h c = None" and "\<not> py_not url"
  shows "r = Inr ()"
proof (cases r)
  case (Inl e)
  with assms(1) have "load_data_into_database url db ds = (Inl e, s)" by simp
  from load_raised[OF this] assms(2,3) show ?thesis by simp
next
  case (Inr u)
  then show ?thesis by simp
qed

lemma dom_insert_params: "dom (insert_params d) = six_keys"
  by (auto simp: insert_params_def six_keys_def)

lemma insert_params_value:
  "k \<in> six_keys \<Longrightarrow> insert_params d k = Some (py_get d k)"
  by (auto simp: insert_params_def six_keys_def)

text \<open>The runs on the concrete inputs.\<close>

lemmas load_unfold =
  load_data_into_database_def try_block_def with_connection_def with_body_def
  perform_def release_def py_print_def start_def Let_def


lemma run_ddl_fails:
  "load_data_into_database (Some ''postgresql://f1'') (raises_at 2 (LibraryError ''denied''))
     [full_row] =
   (Inl (LibraryError ''denied''),
    \<lparr>trace = [ok (CreateEngine ''postgresql://f1''), ok Connect,
               (ExecuteDDL, Some (LibraryError ''denied'')), ok Close, ok Dispose],
     out = [ErrorLine ''denied'']\<rparr>)"
  by (simp add: load_unfold raises_at_def ok_def ok_insert_def)

lemma run_interrupted:
  "load_data_into_database (Some ''postgresql://f1'') (raises_at 4 (BaseOnly ''Timeout''))
     [full_row] =
   (Inl (BaseOnly ''Timeout''),
    \<lparr>trace = [ok (CreateEngine ''postgresql://f1''), ok Connect, ok ExecuteDDL, ok Commit,
               (ExecuteInsert (insert_params full_row), Some (BaseOnly ''Timeout'')),
               ok Close, ok Dispose],
     out = [TableCreated]\<rparr>)"
  by (simp add: load_unfold raises_at_def ok_def ok_insert_def)

lemma run_empty:
  "load_data_into_database (Some ''postgresql://f1'') never_raises [] =
   (Inr (),
    \<lparr>trace = [ok (CreateEngine ''postgresql://f1''), ok Connect, ok ExecuteDDL, ok Commit,
               ok Commit, ok Close, ok Dispose],
     out = [TableCreated, Inserted 0]\<rparr>)"
  by (simp add: load_unfold never_raises_def ok_def)

lemma run_sparse:
  "load_data_into_database (Some ''postgresql://f1'') never_raises [sparse_row] =
   (Inr (),
    \<lparr>trace = [ok (CreateEngine ''postgresql://f1''), ok Connect, ok ExecuteDDL, ok Commit,
               ok_insert sparse_row, ok Commit, ok Close, ok Dispose],
     out = [TableCreated, Inserted 1]\<rparr>)"
  by (simp add: load_unfold never_raises_def ok_def ok_insert_def)

section \<open>Properties of \<^verbatim>\<open>extract_data\<close>\<close>










section \<open>Properties of \<^verbatim>\<open>load_data_into_database\<close>\<close>




text \<open>
  Claim C4. When \<^verbatim>\<open>DATABASE_URL\<close> is not in the environment, the task raises the
  \<^verbatim>\<open>RuntimeError\<close> of line 65 and has made no call on the client and printed nothing,
  whatever the rows and whatever the client would have answered.
\<close>

theorem load_missing_url:
  "load_data_into_database None db ds =
     (Inl (RuntimeError
        ''DATABASE_URL not set in environment. Add it to a .env file or export it.''),
      \<lparr>trace = [], out = []\<rparr>)"
  by (simp add: load_data_into_database_def start_def)

text \<open>
  Claim C5. Whatever the URL, the client's answers and the rows, at the end of the task no
  connection is held and no engine is live; when the connection was obtained, the trace
  ends with its close and the dispose of the engine.
\<close>

theorem load_releases:
  assumes "load_data_into_database url db ds = (r, s)"
  shows "\<not> connection_held (trace s) \<and> \<not> engine_live (trace s) \<and>
         ((Connect, None) \<in> set (trace s) \<longrightarrow>
            (\<exists>evs. trace s = evs @ [(Close, None), (Dispose, None)]))"
  using assms
  by (cases rule: load_run)
     (simp_all add: connection_held_def engine_live_def ok_def holds_inserts lives_inserts
        ok_insert_def image_iff)

theorem load_releases_witness:
  "(Connect, None) \<in> set (trace (snd (load_data_into_database (Some ''postgresql://f1'')
        (raises_at 2 (LibraryError ''denied'')) [full_row]))) \<and>
   \<not> connection_held (trace (snd (load_data_into_database (Some ''postgresql://f1'')
        (raises_at 2 (LibraryError ''denied'')) [full_row]))) \<and>
   \<not> engine_live (trace (snd (load_data_into_database (Some ''postgresql://f1'')
        (raises_at 2 (LibraryError ''denied'')) [full_row])))"
  using load_releases[OF run_ddl_fails]
  by (simp add: run_ddl_fails ok_def)

text \<open>
  Claim C6. For the empty list no insert is attempted. When the task returns, the trace is
  the engine, the connection, the table creation, its commit, the second commit, the
  close and the dispose; the lines printed are the table line and the count 0; the table
  exists and its rows are those before the run, in either mode of the connection. The task returns whenever the URL is set
  and the client raises nothing.
\<close>

theorem load_empty_list:
  assumes "load_data_into_database url db [] = (r, s)"
  shows "inserts (trace s) = [] \<and>
         (r = Inr () \<longrightarrow>
            (\<exists>u. url = Some u \<and>
               trace s = [ok (CreateEngine u), ok Connect, ok ExecuteDDL, ok Commit,
                          ok Commit, ok Close, ok Dispose]) \<and>
            out s = [TableCreated, Inserted 0] \<and>
            table_exists (database_after autocommits d (trace s)) \<and>
            rows (database_after autocommits d (trace s)) = rows d) \<and>
         ((\<forall>h c. db h c = None) \<and> \<not> py_not url \<longrightarrow> r = Inr ())"
proof -
  from assms have "inserts (trace s) = []"
    by (cases rule: load_run) (simp_all add: ok_def)
  moreover from assms have "r = Inr () \<longrightarrow>
            (\<exists>u. url = Some u \<and>
               trace s = [ok (CreateEngine u), ok Connect, ok ExecuteDDL, ok Commit,
                          ok Commit, ok Close, ok Dispose]) \<and>
            out s = [TableCreated, Inserted 0] \<and>
            table_exists (database_after autocommits d (trace s)) \<and>
            rows (database_after autocommits d (trace s)) = rows d"
    by (cases rule: load_run) (simp_all add: ok_def database_after_def)
  moreover from load_returns[OF assms]
  have "(\<forall>h c. db h c = None) \<and> \<not> py_not url \<longrightarrow> r = Inr ()" by blast
  ultimately show ?thesis by blast
qed

theorem load_empty_list_witness:
  "fst (load_data_into_database (Some ''postgresql://f1'') never_raises []) = Inr () \<and>
   out (snd (load_data_into_database (Some ''postgresql://f1'') never_raises []))
     = [TableCreated, Inserted 0] \<and>
   table_exists (database_after autocommit_off empty_database
     (trace (snd (load_data_into_database (Some ''postgresql://f1'') never_raises [])))) \<and>
   inserts (trace (snd (load_data_into_database (Some ''postgresql://f1'') never_raises []))) = []"
  using load_empty_list[OF run_empty, of autocommit_off empty_database]
  by (simp add: run_empty)

text \<open>
  Claim C7, as amended. When a table creation, an insert or a commit raises, the task raises
  that same exception and no other call of the run raised. When the exception is a
  subclass of \<^verbatim>\<open>Exception\<close>, the last line printed is its message; when it derives
  from \<^verbatim>\<open>BaseException\<close> only, no error line is printed.
\<close>

theorem load_reraises:
  assumes "load_data_into_database url db ds = (r, s)"
    and "(c, Some e) \<in> set (trace s)" and "statement_call c"
  shows "r = Inl e \<and>
         (is_exception e \<longrightarrow> out s \<noteq> [] \<and> last (out s) = ErrorLine (str_exn e)) \<and>
         (\<not> is_exception e \<longrightarrow> (\<forall>m. ErrorLine m \<notin> set (out s))) \<and>
         (\<forall>c' e'. (c', Some e') \<in> set (trace s) \<longrightarrow> c' = c \<and> e' = e)"
  using assms
  by (cases rule: load_run)
     (auto simp: ok_def ok_insert_def logged_def)

theorem load_reraises_witness:
  "statement_call ExecuteDDL \<and> is_exception (LibraryError ''denied'') \<and>
   fst (load_data_into_database (Some ''postgresql://f1'')
        (raises_at 2 (LibraryError ''denied'')) [full_row]) = Inl (LibraryError ''denied'') \<and>
   last (out (snd (load_data_into_database (Some ''postgresql://f1'')
        (raises_at 2 (LibraryError ''denied'')) [full_row]))) = ErrorLine ''denied'' \<and>
   \<not> is_exception (BaseOnly ''Timeout'') \<and>
   fst (load_data_into_database (Some ''postgresql://f1'')
        (raises_at 4 (BaseOnly ''Timeout'')) [full_row]) = Inl (BaseOnly ''Timeout'') \<and>
   ErrorLine ''Timeout'' \<notin> set (out (snd (load_data_into_database (Some ''postgresql://f1'')
        (raises_at 4 (BaseOnly ''Timeout'')) [full_row])))"
  using load_reraises[OF run_ddl_fails, of ExecuteDDL "LibraryError ''denied''"]
    load_reraises[OF run_interrupted, of "ExecuteInsert (insert_params full_row)"
      "BaseOnly ''Timeout''"]
  by (simp add: run_ddl_fails run_interrupted ok_def)

text \<open>
  A timeout that derives from \<^verbatim>\<open>BaseException\<close> only, raised inside the insert of the
  first row: the task raises it, and the only line printed is the table line.
\<close>

theorem load_interrupt_not_logged:
  "statement_call (ExecuteInsert (insert_params full_row)) \<and>
   (ExecuteInsert (insert_params full_row), Some (BaseOnly ''Timeout'')) \<in>
     set (trace (snd (load_data_into_database (Some ''postgresql://f1'')
        (raises_at 4 (BaseOnly ''Timeout'')) [full_row]))) \<and>
   fst (load_data_into_database (Some ''postgresql://f1'')
        (raises_at 4 (BaseOnly ''Timeout'')) [full_row]) = Inl (BaseOnly ''Timeout'') \<and>
   out (snd (load_data_into_database (Some ''postgresql://f1'')
        (raises_at 4 (BaseOnly ''Timeout'')) [full_row])) = [TableCreated]"
  by (simp add: run_interrupted)

text \<open>
  Claim C9. With \<^verbatim>\<open>DATABASE_URL\<close> set to the empty string the task does what it does
  when the variable is unset: it raises the same \<^verbatim>\<open>RuntimeError\<close> and makes no call on
  the client.
\<close>

theorem load_empty_url:
  "load_data_into_database (Some '''') db ds = load_data_into_database None db ds \<and>
   fst (load_data_into_database (Some '''') db ds) =
     Inl (RuntimeError
        ''DATABASE_URL not set in environment. Add it to a .env file or export it.'') \<and>
   trace (snd (load_data_into_database (Some '''') db ds)) = []"
  by (simp add: load_data_into_database_def start_def)

text \<open>
  Claim C10. The inserts attempted are those of the rows, in order, up to the point where
  the run stopped, and of all rows when the task returns. The parameter dict of each has
  exactly the six keys, with null under every key the row lacks. The task raises only
  the configuration error or what the client raised, so with the URL set and a client
  that raises nothing it returns, whatever keys the rows lack.
\<close>

theorem load_missing_keys:
  assumes "load_data_into_database url db ds = (r, s)"
  shows "(\<exists>k\<le>length ds. inserts (trace s) = map insert_params (take k ds)) \<and>
         (r = Inr () \<longrightarrow> inserts (trace s) = map insert_params ds) \<and>
         (\<forall>d\<in>set ds. dom (insert_params d) = six_keys \<and>
            (\<forall>k\<in>six_keys.
               insert_params d k = Some (case d k of None \<Rightarrow> JNull | Some v \<Rightarrow> v))) \<and>
         (\<forall>e. r = Inl e \<longrightarrow>
            py_not url \<and> e = RuntimeError
              ''DATABASE_URL not set in environment. Add it to a .env file or export it.''
            \<or> (\<exists>h c. db h c = Some e)) \<and>
         ((\<forall>h c. db h c = None) \<and> \<not> py_not url \<longrightarrow> r = Inr ())"
proof -
  from assms have a: "\<exists>k\<le>length ds. inserts (trace s) = map insert_params (take k ds)"
  proof (cases rule: load_run)
    case (insert u e k)
    then have "Suc k \<le> length ds \<and> inserts (trace s) = map insert_params (take (Suc k) ds)"
      by (simp add: ok_def inserts_append inserts_ok_insert take_Suc_conv_app_nth)
    then show ?thesis by blast
  next
    case (commit_rows u e)
    then have "length ds \<le> length ds \<and> inserts (trace s) = map insert_params (take (length ds) ds)"
      by (simp add: ok_def inserts_append inserts_ok_insert)
    then show ?thesis by blast
  next
    case (finished u)
    then have "length ds \<le> length ds \<and> inserts (trace s) = map insert_params (take (length ds) ds)"
      by (simp add: ok_def inserts_append inserts_ok_insert)
    then show ?thesis by blast
  qed (auto simp: ok_def intro!: exI[of _ 0])
  from assms have b: "r = Inr () \<longrightarrow> inserts (trace s) = map insert_params ds"
    by (cases rule: load_run) (simp_all add: ok_def inserts_append inserts_ok_insert)
  have c: "\<forall>d\<in>set ds. dom (insert_params d) = six_keys \<and>
            (\<forall>k\<in>six_keys.
               insert_params d k = Some (case d k of None \<Rightarrow> JNull | Some v \<Rightarrow> v))"
    by (simp add: dom_insert_params insert_params_value py_get_def)
  from assms load_raised[of url db ds _ s]
  have d: "\<forall>e. r = Inl e \<longrightarrow>
            py_not url \<and> e = RuntimeError
              ''DATABASE_URL not set in environment. Add it to a .env file or export it.''
            \<or> (\<exists>h c. db h c = Some e)"
    by blast
  from load_returns[OF assms]
  have e: "(\<forall>h c. db h c = None) \<and> \<not> py_not url \<longrightarrow> r = Inr ()" by blast
  from a b c d e show ?thesis by blast
qed

theorem load_missing_keys_witness:
  "fst (load_data_into_database (Some ''postgresql://f1'') never_raises [sparse_row]) = Inr () \<and>
   inserts (trace (snd (load_data_into_database (Some ''postgresql://f1'') never_raises
      [sparse_row]))) = [insert_params sparse_row] \<and>
   sparse_row ''date'' = None \<and>
   insert_params sparse_row ''date'' = Some JNull \<and>
   insert_params sparse_row ''driver_number'' = Some (JInt 1)"
proof -
  have k: "sparse_row ''date'' = None" "sparse_row ''driver_number'' = Some (JInt 1)"
    by (simp_all add: sparse_row_def)
  from load_missing_keys[OF run_sparse] k show ?thesis
    by (simp add: run_sparse six_keys_def)
qed

end
